theory Spec2Isabelle
  imports Main "HOL-Library.Word"
begin

section \<open>The tune\_control command of the PX4 firmware\<close>

text \<open>
  A shallow embedding of \<^verbatim>\<open>src/systemcmds/tune_control/tune_control.cpp\<close>.
  The command parses its options, then runs one of the sub-commands \<^verbatim>\<open>play\<close>,
  \<^verbatim>\<open>libtest\<close> and \<^verbatim>\<open>stop\<close>. Everything the command does to the outside
  (uORB publications, sleeping, console output) is recorded, in order, in a trace.
\<close>

subsection \<open>Data\<close>

text \<open>
  The uORB message \<^verbatim>\<open>tune_control_s\<close>. Field widths are those of the casts the
  source applies when it fills the message.
\<close>

record tune_control_s =
  timestamp :: "64 word"
  tune_id :: "8 word"
  tune_override :: bool
  frequency :: "16 word"
  duration :: "32 word"
  silence :: "32 word"
  strength :: "8 word"

text \<open>The four values \<^verbatim>\<open>get_next_tune\<close> writes through its reference parameters:
  frequency, duration, silence (all \<^verbatim>\<open>unsigned\<close>) and strength (\<^verbatim>\<open>uint8_t\<close>).\<close>

type_synonym tune = "32 word \<times> 32 word \<times> 32 word \<times> 8 word"

text \<open>Console output of the command.\<close>

datatype message =
    Start_playback
  | Playback_finished
  | Publishing_standard_tune "8 word"
  | Libtest_tune tune
  | Stopping_playback
  | Tune_ID_not_recognized

text \<open>What the command does to the outside world.\<close>

datatype action =
    Orb_advertise_queue tune_control_s nat
  | Orb_publish tune_control_s
  | Usleep "32 word"
  | Usage
  | Px4_info message
  | Px4_warn message

text \<open>
  The state that outlives one run of the command: the static publication handle
  \<^verbatim>\<open>tune_control_pub\<close> (\<open>False\<close> is \<^verbatim>\<open>nullptr\<close>) and the trace of actions so far.
\<close>

record world =
  tune_control_pub :: bool
  trace :: "action list"

text \<open>
  The code the command calls that lives outside this file: the C library's
  \<^verbatim>\<open>strtol\<close> (called with base 0 and no end pointer; the field gives the mathematical
  value of the \<^verbatim>\<open>long\<close> it returns), the high-resolution clock (its reading is given
  by the environment, as a function of the actions performed so far), and the class
  \<^verbatim>\<open>Tunes\<close> of \<^verbatim>\<open>lib/tunes\<close> with state \<open>'t\<close>. \<^verbatim>\<open>get_next_tune\<close> returns its
  \<^verbatim>\<open>int\<close> result, the values of its four reference parameters after the call, and the
  new state of the object.
\<close>

record 't platform =
  strtol :: "string \<Rightarrow> int"
  hrt_absolute_time :: "action list \<Rightarrow> 64 word"
  Tunes :: "'t"
  get_default_tunes_size :: "'t \<Rightarrow> 32 word"
  set_string :: "string option \<Rightarrow> 8 word \<Rightarrow> 't \<Rightarrow> 't"
  set_control :: "tune_control_s \<Rightarrow> 't \<Rightarrow> int \<times> 't"
  get_next_tune :: "'t \<Rightarrow> int \<times> tune \<times> 't"
  get_maximum_update_interval :: "'t \<Rightarrow> 32 word"

text \<open>The local variables of \<^verbatim>\<open>tune_control_main\<close> that the option loop writes.\<close>

record locals =
  string_input :: bool
  tune_string :: "string option"
  tune_control :: tune_control_s

subsection \<open>Constants\<close>

definition MAX_NOTE_ITERATION :: int where
  "MAX_NOTE_ITERATION = 50"

text \<open>Modelled from the spec: the constant \<^verbatim>\<open>tune_control_s::STRENGTH_NORMAL\<close> is declared
  in the generated uORB header, which is not part of the sources at hand; the
  specification gives the default strength as 40.\<close>

definition STRENGTH_NORMAL :: "8 word" where
  "STRENGTH_NORMAL = 40"

text \<open>The error number \<^verbatim>\<open>EINVAL\<close> of the C library.\<close>

definition EINVAL :: int where
  "EINVAL = 22"

subsection \<open>Effects\<close>

definition emit :: "action \<Rightarrow> world \<Rightarrow> world" where
  "emit a w = w\<lparr>trace := trace w @ [a]\<rparr>"

definition usage :: "world \<Rightarrow> world" where
  "usage w = emit Usage w"

definition usleep :: "32 word \<Rightarrow> world \<Rightarrow> world" where
  "usleep n w = emit (Usleep n) w"

definition px4_info :: "message \<Rightarrow> world \<Rightarrow> world" where
  "px4_info m w = emit (Px4_info m) w"

definition px4_warn :: "message \<Rightarrow> world \<Rightarrow> world" where
  "px4_warn m w = emit (Px4_warn m) w"

text \<open>
  \<^verbatim>\<open>publish_tune_control\<close> stamps the message, then advertises the topic with a queue
  of 3 when the handle is still null, and publishes on the existing handle otherwise.
  The two uORB calls are recorded in the trace as they are made. The handle the
  advertisement returns is taken to be non-null: the specification has the first call
  create the queue and later calls reuse it, and has no failing publication.
\<close>

definition publish_tune_control ::
  "'t platform \<Rightarrow> tune_control_s \<Rightarrow> world \<Rightarrow> tune_control_s \<times> world" where
  "publish_tune_control E tc w =
     (let tc' = tc\<lparr>timestamp := hrt_absolute_time E (trace w)\<rparr> in
      if \<not> tune_control_pub w
      then (tc', (emit (Orb_advertise_queue tc' 3) w)\<lparr>tune_control_pub := True\<rparr>)
      else (tc', emit (Orb_publish tc') w))"

subsection \<open>The option loop\<close>

text \<open>
  One pass through the \<^verbatim>\<open>switch\<close>: \<open>ch\<close> is what \<^verbatim>\<open>px4_getopt\<close> returned and
  \<open>myoptarg\<close> the argument it found. \<open>Inl r\<close> is the early \<^verbatim>\<open>return r\<close> (each of them
  follows a call of \<^verbatim>\<open>usage\<close>).
\<close>

definition getopt_case :: "'t platform \<Rightarrow> 't \<Rightarrow> char \<times> string \<Rightarrow> locals \<Rightarrow> int + locals" where
  "getopt_case E tunes opt l =
     (case opt of (ch, myoptarg) \<Rightarrow>
        if ch = CHR ''f'' then
          (let val = (ucast (word_of_int (strtol E myoptarg) :: 16 word) :: 32 word) in
           if val > 0 \<and> val < 22000
           then Inr (l\<lparr>tune_control := (tune_control l)\<lparr>frequency := ucast val\<rparr>\<rparr>)
           else Inl 1)
        else if ch = CHR ''d'' then
          Inr (l\<lparr>tune_control :=
                   (tune_control l)\<lparr>duration := word_of_int (strtol E myoptarg)\<rparr>\<rparr>)
        else if ch = CHR ''t'' then
          (let val = (ucast (word_of_int (strtol E myoptarg) :: 8 word) :: 32 word) in
           if val > 0 \<and> val < get_default_tunes_size E tunes
           then Inr (l\<lparr>tune_control := (tune_control l)\<lparr>tune_id := ucast val\<rparr>\<rparr>)
           else Inl 1)
        else if ch = CHR ''m'' then
          (let l' = l\<lparr>string_input := True, tune_string := Some myoptarg\<rparr> in
           case myoptarg of
             [] \<Rightarrow> Inl 1
           | c # _ \<Rightarrow> if c \<noteq> CHR ''M'' then Inl 1 else Inr l')
        else if ch = CHR ''s'' then
          (let val = (ucast (word_of_int (strtol E myoptarg) :: 8 word) :: 32 word) in
           if val > 0 \<and> val < 100
           then Inr (l\<lparr>tune_control := (tune_control l)\<lparr>strength := ucast val\<rparr>\<rparr>)
           else Inr (l\<lparr>tune_control := (tune_control l)\<lparr>strength := STRENGTH_NORMAL\<rparr>\<rparr>))
        else Inl (- 1))"

text \<open>
  The \<^verbatim>\<open>while\<close> loop around \<^verbatim>\<open>px4_getopt\<close>. The platform's option scanner is not part
  of the sources at hand: the list holds the pairs (option character, argument) it
  returns, in order, before it returns \<^verbatim>\<open>EOF\<close>.
\<close>

fun getopt_loop :: "'t platform \<Rightarrow> 't \<Rightarrow> (char \<times> string) list \<Rightarrow> locals \<Rightarrow> int + locals" where
  "getopt_loop E tunes [] l = Inr l"
| "getopt_loop E tunes (opt # opts) l =
     (case getopt_case E tunes opt l of
        Inl r \<Rightarrow> Inl r
      | Inr l' \<Rightarrow> getopt_loop E tunes opts l')"

subsection \<open>The playback loops\<close>

text \<open>
  The loop of \<^verbatim>\<open>play\<close> with a melody string. \<open>exit_counter\<close> is the \<^verbatim>\<open>int\<close> of the
  source; the loop leaves through \<^verbatim>\<open>break\<close> once it exceeds \<^verbatim>\<open>MAX_NOTE_ITERATION\<close>.
\<close>

function play_loop :: "'t platform \<Rightarrow> 't \<Rightarrow> tune_control_s \<Rightarrow> int \<Rightarrow> world \<Rightarrow> world" where
  "play_loop E tunes tc exit_counter w =
     (case get_next_tune E tunes of (r, (f, d, sl, st), tunes') \<Rightarrow>
        if r > 0 then
          (let tc1 = tc\<lparr>tune_id := 0, frequency := ucast f, duration := d,
                        silence := sl, strength := st\<rparr>;
               pw = publish_tune_control E tc1 w;
               w2 = usleep (d + sl) (snd pw);
               exit_counter' = exit_counter + 1
           in if exit_counter' > MAX_NOTE_ITERATION then w2
              else play_loop E tunes' (fst pw) exit_counter' w2)
        else w)"
  by pat_completeness auto
termination
  by (relation "measure (\<lambda>(E, tunes, tc, exit_counter, w). nat (MAX_NOTE_ITERATION + 1 - exit_counter))")
     (auto simp: MAX_NOTE_ITERATION_def)

text \<open>The loop of \<^verbatim>\<open>libtest\<close>: it prints each tune and sleeps half a second.\<close>

function libtest_loop :: "'t platform \<Rightarrow> 't \<Rightarrow> int \<Rightarrow> world \<Rightarrow> world" where
  "libtest_loop E tunes exit_counter w =
     (case get_next_tune E tunes of (r, t, tunes') \<Rightarrow>
        if r > 0 then
          (let w1 = px4_info (Libtest_tune t) w;
               w2 = usleep 500000 w1;
               exit_counter' = exit_counter + 1
           in if exit_counter' > MAX_NOTE_ITERATION then w2
              else libtest_loop E tunes' exit_counter' w2)
        else w)"
  by pat_completeness auto
termination
  by (relation "measure (\<lambda>(E, tunes, exit_counter, w). nat (MAX_NOTE_ITERATION + 1 - exit_counter))")
     (auto simp: MAX_NOTE_ITERATION_def)

subsection \<open>The command\<close>

text \<open>The message as \<^verbatim>\<open>tune_control_main\<close> initialises it: all zero, strength normal.\<close>

definition tune_control_init :: tune_control_s where
  "tune_control_init =
     \<lparr>timestamp = 0, tune_id = 0, tune_override = False, frequency = 0,
      duration = 0, silence = 0, strength = STRENGTH_NORMAL\<rparr>"

definition locals_init :: locals where
  "locals_init = \<lparr>string_input = False, tune_string = None, tune_control = tune_control_init\<rparr>"

text \<open>
  \<open>getopts\<close> is what the option scanner yields (see \<open>getopt_loop\<close>) and \<open>args\<close> is
  \<^verbatim>\<open>argv\<close> from \<^verbatim>\<open>myoptind\<close> on, once the scanner has returned \<^verbatim>\<open>EOF\<close>. The result is
  the exit code and the world afterwards.
\<close>

definition tune_control_main ::
  "'t platform \<Rightarrow> (char \<times> string) list \<Rightarrow> string list \<Rightarrow> world \<Rightarrow> int \<times> world" where
  "tune_control_main E getopts args w =
     (let tunes = Tunes E in
      case getopt_loop E tunes getopts locals_init of
        Inl r \<Rightarrow> (r, usage w)
      | Inr l \<Rightarrow>
          (case args of
             [] \<Rightarrow> (1, usage w)
           | cmd # _ \<Rightarrow>
               if cmd = ''play'' then
                 (if string_input l then
                    (let w1 = px4_info Start_playback w;
                         tunes1 = set_string E (tune_string l) (strength (tune_control l)) tunes;
                         w2 = play_loop E tunes1 (tune_control l) 0 w1
                     in (0, px4_info Playback_finished w2))
                  else
                    (let tc = (if tune_id (tune_control l) = 0
                               then (tune_control l)\<lparr>tune_id := 1\<rparr> else tune_control l);
                         w1 = px4_info (Publishing_standard_tune (tune_id tc)) w
                     in (0, snd (publish_tune_control E tc w1))))
               else if cmd = ''libtest'' then
                 (let rt = set_control E (tune_control l) tunes;
                      w1 = (if fst rt = - EINVAL then px4_warn Tune_ID_not_recognized w else w)
                  in (0, libtest_loop E (snd rt) 0 w1))
               else if cmd = ''stop'' then
                 (let w1 = px4_info Stopping_playback w;
                      tc = (tune_control l)\<lparr>tune_id := 0, frequency := 0, duration := 0,
                                              silence := 0, tune_override := True\<rparr>;
                      w2 = snd (publish_tune_control E tc w1)
                  in (0, usleep (get_maximum_update_interval E tunes) w2))
               else (1, usage w)))"

subsection \<open>Reading a trace\<close>

text \<open>The messages handed to uORB, in order: an advertisement carries its first message.\<close>

fun published :: "action list \<Rightarrow> tune_control_s list" where
  "published [] = []"
| "published (Orb_advertise_queue tc n # as) = tc # published as"
| "published (Orb_publish tc # as) = tc # published as"
| "published (a # as) = published as"

text \<open>The arguments of the calls of \<^verbatim>\<open>usleep\<close>, in order.\<close>

fun sleeps :: "action list \<Rightarrow> 32 word list" where
  "sleeps [] = []"
| "sleeps (Usleep n # as) = n # sleeps as"
| "sleeps (a # as) = sleeps as"

subsection \<open>What the playback loop is measured against\<close>

text \<open>
  The tunes a \<^verbatim>\<open>Tunes\<close> object hands out: the results of at most \<open>n\<close> successive
  calls of \<^verbatim>\<open>get_next_tune\<close>, up to the first call that does not return a positive
  value.
\<close>

fun tunes_of :: "'t platform \<Rightarrow> nat \<Rightarrow> 't \<Rightarrow> tune list" where
  "tunes_of E 0 t = []"
| "tunes_of E (Suc n) t =
     (case get_next_tune E t of (r, x, t') \<Rightarrow> if r > 0 then x # tunes_of E n t' else [])"

text \<open>The tune a message carries, and a tune with its frequency cast to 16 bits, as the
  assignment to the message's field does.\<close>

definition tune_of_msg :: "tune_control_s \<Rightarrow> 16 word \<times> 32 word \<times> 32 word \<times> 8 word" where
  "tune_of_msg e = (frequency e, duration e, silence e, strength e)"

definition narrow :: "tune \<Rightarrow> 16 word \<times> 32 word \<times> 32 word \<times> 8 word" where
  "narrow x = (case x of (f, d, sl, st) \<Rightarrow> (ucast f, d, sl, st))"

text \<open>
  The actions of a paced playback of the messages \<open>es\<close>: each message is handed to uORB
  (by advertising when the handle is still null, \<open>pub = False\<close>) and is followed by
  one \<^verbatim>\<open>usleep\<close> of its duration plus its silence, added as 32-bit unsigned values.
\<close>

fun play_actions :: "bool \<Rightarrow> tune_control_s list \<Rightarrow> action list" where
  "play_actions pub [] = []"
| "play_actions pub (e # es) =
     (if pub then Orb_publish e else Orb_advertise_queue e 3)
       # Usleep (duration e + silence e) # play_actions True es"

subsection \<open>A platform to run the command on\<close>

text \<open>
  A concrete platform for evaluating the command: \<^verbatim>\<open>strtol\<close> reads leading decimal
  digits, the clock counts the actions so far, the table of default tunes has size 22
  (the usage text gives 21 as the largest index),
  every melody string compiles to the tunes \<open>ts\<close>, which \<^verbatim>\<open>get_next_tune\<close> hands out
  one by one, and the maximum update interval is 100000.
\<close>

fun digits :: "int \<Rightarrow> string \<Rightarrow> int" where
  "digits acc [] = acc"
| "digits acc (c # cs) =
     (if 48 \<le> (of_char c :: nat) \<and> (of_char c :: nat) \<le> 57
      then digits (10 * acc + int (of_char c) - 48) cs else acc)"

definition bench :: "tune list \<Rightarrow> tune list platform" where
  "bench ts =
     \<lparr>strtol = digits 0,
      hrt_absolute_time = (\<lambda>tr. of_nat (length tr)),
      Tunes = [],
      get_default_tunes_size = (\<lambda>_. 22),
      set_string = (\<lambda>s st _. ts),
      set_control = (\<lambda>tc t. (0, t)),
      get_next_tune = (\<lambda>t. case t of [] \<Rightarrow> (0, (0, 0, 0, 0), []) | x # xs \<Rightarrow> (1, x, xs)),
      get_maximum_update_interval = (\<lambda>_. 100000)\<rparr>"

definition w0 :: world where
  "w0 = \<lparr>tune_control_pub = False, trace = []\<rparr>"

section \<open>Properties\<close>

subsection \<open>Publishing and the playback loop\<close>

declare play_loop.simps [simp del]


lemma publish_fst:
  "fst (publish_tune_control E tc w) = tc\<lparr>timestamp := hrt_absolute_time E (trace w)\<rparr>"
  by (simp add: publish_tune_control_def Let_def)

lemma publish_trace:
  "trace (snd (publish_tune_control E tc w)) =
     trace w @ [if tune_control_pub w
                then Orb_publish (tc\<lparr>timestamp := hrt_absolute_time E (trace w)\<rparr>)
                else Orb_advertise_queue (tc\<lparr>timestamp := hrt_absolute_time E (trace w)\<rparr>) 3]"
  by (simp add: publish_tune_control_def Let_def emit_def)

lemma publish_pub: "tune_control_pub (snd (publish_tune_control E tc w))"
  by (simp add: publish_tune_control_def Let_def emit_def)

lemma play_loop_trace:
  "0 \<le> c \<Longrightarrow> c \<le> MAX_NOTE_ITERATION \<Longrightarrow>
   \<exists>evs. trace (play_loop E t tc c w) = trace w @ play_actions (tune_control_pub w) evs
       \<and> tune_control_pub (play_loop E t tc c w) = (tune_control_pub w \<or> evs \<noteq> [])
       \<and> map tune_id evs = replicate (length evs) 0
       \<and> map tune_override evs = replicate (length evs) (tune_override tc)
       \<and> map tune_of_msg evs = map narrow (tunes_of E (nat (MAX_NOTE_ITERATION + 1 - c)) t)"
proof (induction E t tc c w rule: play_loop.induct)
  case (1 E tunes tc c w)
  obtain r f d sl st tunes' where g: "get_next_tune E tunes = (r, (f, d, sl, st), tunes')"
    by (metis prod_cases3 prod_cases4)
  have n: "nat (MAX_NOTE_ITERATION + 1 - c) = Suc (nat (MAX_NOTE_ITERATION + 1 - (c + 1)))"
    using "1.prems" by simp
  show ?case
  proof (cases "r > 0")
    case False
    then have "play_loop E tunes tc c w = w"
      by (subst play_loop.simps) (simp add: g)
    moreover have "tunes_of E (nat (MAX_NOTE_ITERATION + 1 - c)) tunes = []"
      using False by (simp add: n g)
    ultimately show ?thesis
      by (intro exI [of _ "[]"]) simp
  next
    case True
    define tc1 where "tc1 = tc\<lparr>tune_id := 0, frequency := ucast f, duration := d,
                        silence := sl, strength := st\<rparr>"
    define pw where "pw = publish_tune_control E tc1 w"
    define w2 where "w2 = usleep (d + sl) (snd pw)"
    define e where "e = fst pw"
    have e: "e = tc1\<lparr>timestamp := hrt_absolute_time E (trace w)\<rparr>"
      by (simp add: e_def pw_def publish_fst)
    have tr2: "trace w2 = trace w @ play_actions (tune_control_pub w) [e]"
      by (simp add: w2_def usleep_def emit_def pw_def publish_trace e tc1_def)
    have pub2: "tune_control_pub w2"
      by (simp add: w2_def usleep_def emit_def pw_def publish_pub)
    have tm: "tune_of_msg e = narrow (f, d, sl, st)"
      by (simp add: e tc1_def tune_of_msg_def narrow_def)
    have ti: "tune_id e = 0" "tune_override e = tune_override tc"
      by (simp_all add: e tc1_def)
    show ?thesis
    proof (cases "c + 1 > MAX_NOTE_ITERATION")
      case brk: True
      have "play_loop E tunes tc c w = w2"
        using True brk
        by (subst play_loop.simps) (simp add: g Let_def w2_def pw_def tc1_def)
      moreover have "tunes_of E (nat (MAX_NOTE_ITERATION + 1 - c)) tunes = [(f, d, sl, st)]"
        using True brk "1.prems" by (simp add: n g)
      ultimately show ?thesis
        using tr2 pub2 tm ti by (intro exI [of _ "[e]"]) simp
    next
      case go: False
      have pl: "play_loop E tunes tc c w = play_loop E tunes' e (c + 1) w2"
        using True go
        by (subst play_loop.simps) (simp add: g Let_def w2_def pw_def tc1_def e_def)
      have "\<exists>evs. trace (play_loop E tunes' e (c + 1) w2)
                    = trace w2 @ play_actions (tune_control_pub w2) evs
              \<and> tune_control_pub (play_loop E tunes' e (c + 1) w2)
                    = (tune_control_pub w2 \<or> evs \<noteq> [])
              \<and> map tune_id evs = replicate (length evs) 0
              \<and> map tune_override evs = replicate (length evs) (tune_override e)
              \<and> map tune_of_msg evs
                    = map narrow (tunes_of E (nat (MAX_NOTE_ITERATION + 1 - (c + 1))) tunes')"
        unfolding e_def w2_def pw_def tc1_def
        by (rule "1.IH" [OF g [symmetric] refl refl refl refl True refl refl refl refl])
           (use go "1.prems" in simp_all)
      then obtain evs where
        evs: "trace (play_loop E tunes' e (c + 1) w2)
                    = trace w2 @ play_actions (tune_control_pub w2) evs"
          "map tune_id evs = replicate (length evs) 0"
          "map tune_override evs = replicate (length evs) (tune_override e)"
          "map tune_of_msg evs
                    = map narrow (tunes_of E (nat (MAX_NOTE_ITERATION + 1 - (c + 1))) tunes')"
          and p: "tune_control_pub (play_loop E tunes' e (c + 1) w2)
                    = (tune_control_pub w2 \<or> evs \<noteq> [])"
        by blast
      have tn: "tunes_of E (nat (MAX_NOTE_ITERATION + 1 - c)) tunes
                  = (f, d, sl, st) # tunes_of E (nat (MAX_NOTE_ITERATION + 1 - (c + 1))) tunes'"
        using True by (subst n) (simp add: g)
      show ?thesis
        using evs p tr2 pub2 tm ti tn pl
        by (intro exI [of _ "e # evs"]) simp
    qed
  qed
qed

subsection \<open>Casts\<close>

lemma val16_range:
  "(0 < (ucast (word_of_int n :: 16 word) :: 32 word)
      \<and> (ucast (word_of_int n :: 16 word) :: 32 word) < 22000)
   = (0 < n mod 65536 \<and> n mod 65536 < 22000)"
  by (simp add: word_less_def uint_word_of_int take_bit_eq_mod unsigned_ucast_eq)

lemma val8_range:
  "(0 < (ucast (word_of_int n :: 8 word) :: 32 word)
      \<and> (ucast (word_of_int n :: 8 word) :: 32 word) < sz)
   = (0 < n mod 256 \<and> n mod 256 < uint sz)"
  by (simp add: word_less_def uint_word_of_int take_bit_eq_mod unsigned_ucast_eq)

lemma val16_back: "(ucast (ucast (x :: 16 word) :: 32 word) :: 16 word) = x"
  by (rule bit_word_eqI) (auto simp: bit_simps)

lemma val8_back: "(ucast (ucast (x :: 8 word) :: 32 word) :: 8 word) = x"
  by (rule bit_word_eqI) (auto simp: bit_simps)

lemma uint_val16: "uint (word_of_int n :: 16 word) = n mod 65536"
  by (simp add: uint_word_of_int take_bit_eq_mod)

lemma uint_val8: "uint (word_of_int n :: 8 word) = n mod 256"
  by (simp add: uint_word_of_int take_bit_eq_mod)

subsection \<open>Facts about the option loop\<close>

lemma getopt_case_f:
  "getopt_case E t (CHR ''f'', a) l =
     (if 0 < strtol E a mod 65536 \<and> strtol E a mod 65536 < 22000
      then Inr (l\<lparr>tune_control := (tune_control l)\<lparr>frequency := word_of_int (strtol E a)\<rparr>\<rparr>)
      else Inl 1)"
  unfolding getopt_case_def Let_def val16_range val16_back by simp

lemma getopt_case_d:
  "getopt_case E t (CHR ''d'', a) l =
     Inr (l\<lparr>tune_control := (tune_control l)\<lparr>duration := word_of_int (strtol E a)\<rparr>\<rparr>)"
  unfolding getopt_case_def by simp

lemma getopt_case_t:
  "getopt_case E t (CHR ''t'', a) l =
     (if 0 < strtol E a mod 256 \<and> strtol E a mod 256 < uint (get_default_tunes_size E t)
      then Inr (l\<lparr>tune_control := (tune_control l)\<lparr>tune_id := word_of_int (strtol E a)\<rparr>\<rparr>)
      else Inl 1)"
  unfolding getopt_case_def Let_def val8_range val8_back by simp

lemma getopt_case_m:
  "getopt_case E t (CHR ''m'', a) l =
     (if take 1 a = ''M'' then Inr (l\<lparr>string_input := True, tune_string := Some a\<rparr>) else Inl 1)"
  unfolding getopt_case_def Let_def by (cases a) simp_all

lemma val8_100:
  "(0 < (ucast (word_of_int n :: 8 word) :: 32 word)
      \<and> (ucast (word_of_int n :: 8 word) :: 32 word) < 100)
   = (0 < n mod 256 \<and> n mod 256 < 100)"
  by (simp add: val8_range)

lemma getopt_case_s:
  "getopt_case E t (CHR ''s'', a) l =
     Inr (l\<lparr>tune_control := (tune_control l)
            \<lparr>strength := (if 0 < strtol E a mod 256 \<and> strtol E a mod 256 < 100
                           then word_of_int (strtol E a) else STRENGTH_NORMAL)\<rparr>\<rparr>)"
  unfolding getopt_case_def Let_def val8_100 val8_back by simp

lemma getopt_case_other:
  "ch \<notin> {CHR ''f'', CHR ''d'', CHR ''t'', CHR ''m'', CHR ''s''} \<Longrightarrow>
   getopt_case E t (ch, a) l = Inl (- 1)"
  unfolding getopt_case_def by simp

lemma getopt_case_cases:
  obtains (f) "ch = CHR ''f''" | (d) "ch = CHR ''d''" | (t) "ch = CHR ''t''"
        | (m) "ch = CHR ''m''" | (s) "ch = CHR ''s''"
        | (other) "ch \<notin> {CHR ''f'', CHR ''d'', CHR ''t'', CHR ''m'', CHR ''s''}"
  by blast

lemma getopt_case_Inl:
  assumes "getopt_case E t opt l = Inl r"
  shows "r = 1 \<or> r = - 1"
proof -
  obtain ch a where opt: "opt = (ch, a)" by (cases opt)
  show ?thesis
    using assms unfolding opt
    by (cases ch rule: getopt_case_cases)
       (simp_all add: getopt_case_f getopt_case_d getopt_case_t getopt_case_m getopt_case_s
          getopt_case_other split: if_splits)
qed

lemma getopt_loop_Inl:
  "getopt_loop E t opts l = Inl r \<Longrightarrow> r = 1 \<or> r = - 1"
proof (induction opts arbitrary: l)
  case Nil
  then show ?case by simp
next
  case (Cons opt opts)
  show ?case
  proof (cases "getopt_case E t opt l")
    case (Inl r')
    with Cons.prems have "r' = r" by simp
    with Inl show ?thesis by (auto dest: getopt_case_Inl)
  next
    case (Inr l')
    with Cons.prems have "getopt_loop E t opts l' = Inl r" by simp
    then show ?thesis by (rule Cons.IH)
  qed
qed

lemma getopt_loop_append:
  "getopt_loop E t (xs @ ys) l =
     (case getopt_loop E t xs l of Inl r \<Rightarrow> Inl r | Inr l' \<Rightarrow> getopt_loop E t ys l')"
  by (induction xs arbitrary: l) (simp_all split: sum.splits)

lemma getopt_loop_rejects:
  assumes "\<And>l. \<exists>r. getopt_case E t opt l = Inl r" and "opt \<in> set opts"
  shows "\<exists>r. getopt_loop E t opts l = Inl r"
  using assms(2)
proof (induction opts arbitrary: l)
  case Nil
  then show ?case by simp
next
  case (Cons x xs)
  show ?case
  proof (cases "getopt_case E t x l")
    case (Inl r)
    then show ?thesis by simp
  next
    case (Inr l')
    with assms(1) [of l] have "x \<noteq> opt" by auto
    with Cons.prems have "opt \<in> set xs" by auto
    from Cons.IH [OF this, of l'] Inr show ?thesis by simp
  qed
qed

text \<open>Which option writes which variable.\<close>

lemma getopt_case_keeps:
  assumes "getopt_case E t (ch, a) l = Inr l'"
  shows "(ch \<noteq> CHR ''m'' \<longrightarrow> string_input l' = string_input l)
       \<and> (ch \<noteq> CHR ''t'' \<longrightarrow> tune_id (tune_control l') = tune_id (tune_control l))
       \<and> (ch \<noteq> CHR ''f'' \<longrightarrow> frequency (tune_control l') = frequency (tune_control l))
       \<and> (ch \<noteq> CHR ''s'' \<longrightarrow> strength (tune_control l') = strength (tune_control l))
       \<and> (ch \<noteq> CHR ''d'' \<longrightarrow> duration (tune_control l') = duration (tune_control l))
       \<and> silence (tune_control l') = silence (tune_control l)
       \<and> tune_override (tune_control l') = tune_override (tune_control l)"
proof (cases ch rule: getopt_case_cases)
  case f
  with assms show ?thesis by (auto simp: getopt_case_f split: if_splits)
next
  case d
  with assms show ?thesis by (auto simp: getopt_case_d)
next
  case t
  with assms show ?thesis by (auto simp: getopt_case_t split: if_splits)
next
  case m
  with assms show ?thesis by (auto simp: getopt_case_m split: if_splits)
next
  case s
  with assms show ?thesis by (auto simp: getopt_case_s)
next
  case other
  with assms show ?thesis by (simp add: getopt_case_other)
qed

lemma getopt_loop_keeps:
  "getopt_loop E t opts l = Inr l' \<Longrightarrow>
     (CHR ''m'' \<notin> fst ` set opts \<longrightarrow> string_input l' = string_input l)
   \<and> (CHR ''t'' \<notin> fst ` set opts \<longrightarrow> tune_id (tune_control l') = tune_id (tune_control l))
   \<and> (CHR ''f'' \<notin> fst ` set opts \<longrightarrow> frequency (tune_control l') = frequency (tune_control l))
   \<and> (CHR ''s'' \<notin> fst ` set opts \<longrightarrow> strength (tune_control l') = strength (tune_control l))
   \<and> (CHR ''d'' \<notin> fst ` set opts \<longrightarrow> duration (tune_control l') = duration (tune_control l))
   \<and> silence (tune_control l') = silence (tune_control l)
   \<and> tune_override (tune_control l') = tune_override (tune_control l)"
proof (induction opts arbitrary: l)
  case Nil
  then show ?case by simp
next
  case (Cons opt opts)
  obtain ch a where opt: "opt = (ch, a)" by (cases opt)
  from Cons.prems obtain l1 where
    s: "getopt_case E t (ch, a) l = Inr l1" "getopt_loop E t opts l1 = Inr l'"
    by (auto simp: opt split: sum.splits)
  from Cons.IH [OF s(2)] getopt_case_keeps [OF s(1)] show ?case
    by (auto simp: opt)
qed

subsection \<open>Traces\<close>

lemma published_append: "published (xs @ ys) = published xs @ published ys"
  by (induction xs rule: published.induct) simp_all

lemma sleeps_append: "sleeps (xs @ ys) = sleeps xs @ sleeps ys"
  by (induction xs rule: sleeps.induct) simp_all

lemma published_play_actions: "published (play_actions b es) = es"
  by (induction es arbitrary: b) simp_all

lemma sleeps_play_actions:
  "sleeps (play_actions b es) = map (\<lambda>e. duration e + silence e) es"
  by (induction es arbitrary: b) simp_all

lemma tunes_of_length: "length (tunes_of E n t) \<le> n"
  by (induction n arbitrary: t) (auto split: prod.splits)

lemma tunes_of_bench: "tunes_of (bench ts) n xs = take n xs"
  by (induction n arbitrary: xs) (auto simp: bench_def split: list.splits)

subsection \<open>The branches of the command\<close>

lemma main_rejected:
  "getopt_loop E (Tunes E) getopts locals_init = Inl r \<Longrightarrow>
   tune_control_main E getopts args w = (r, usage w)"
  by (simp add: tune_control_main_def)

lemma main_play_string:
  "getopt_loop E (Tunes E) getopts locals_init = Inr l \<Longrightarrow> string_input l \<Longrightarrow>
   tune_control_main E getopts (''play'' # rest) w =
     (0, px4_info Playback_finished
           (play_loop E (set_string E (tune_string l) (strength (tune_control l)) (Tunes E))
              (tune_control l) 0 (px4_info Start_playback w)))"
  by (simp add: tune_control_main_def Let_def)

lemma main_play_id:
  "getopt_loop E (Tunes E) getopts locals_init = Inr l \<Longrightarrow> \<not> string_input l \<Longrightarrow>
   tune_control_main E getopts (''play'' # rest) w =
     (0, snd (publish_tune_control E
                (if tune_id (tune_control l) = 0
                 then (tune_control l)\<lparr>tune_id := 1\<rparr> else tune_control l)
                (px4_info (Publishing_standard_tune
                   (if tune_id (tune_control l) = 0 then 1 else tune_id (tune_control l))) w)))"
  by (simp add: tune_control_main_def Let_def)

lemma main_stop:
  "getopt_loop E (Tunes E) getopts locals_init = Inr l \<Longrightarrow>
   tune_control_main E getopts (''stop'' # rest) w =
     (0, usleep (get_maximum_update_interval E (Tunes E))
           (snd (publish_tune_control E
              ((tune_control l)\<lparr>tune_id := 0, frequency := 0, duration := 0,
                                  silence := 0, tune_override := True\<rparr>)
              (px4_info Stopping_playback w))))"
  by (simp add: tune_control_main_def Let_def)

lemma main_play_id_trace:
  fixes E :: "'t platform" and w :: world and l :: locals
  assumes "getopt_loop E (Tunes E) getopts locals_init = Inr l" and "\<not> string_input l"
  defines "i \<equiv> (if tune_id (tune_control l) = 0 then 1 else tune_id (tune_control l))"
  defines "e \<equiv> (tune_control l)\<lparr>tune_id := i,
       timestamp := hrt_absolute_time E (trace w @ [Px4_info (Publishing_standard_tune i)])\<rparr>"
  shows "fst (tune_control_main E getopts (''play'' # rest) w) = 0"
    and "trace (snd (tune_control_main E getopts (''play'' # rest) w)) =
           trace w @ [Px4_info (Publishing_standard_tune i),
                      if tune_control_pub w then Orb_publish e else Orb_advertise_queue e 3]"
  using assms(1,2) unfolding i_def e_def
  by (simp_all add: main_play_id publish_trace px4_info_def emit_def)

lemma main_play_string_trace:
  assumes "getopt_loop E (Tunes E) getopts locals_init = Inr l" and "string_input l"
  shows "\<exists>evs. tune_control_main E getopts (''play'' # rest) w
                 = (0, snd (tune_control_main E getopts (''play'' # rest) w))
          \<and> trace (snd (tune_control_main E getopts (''play'' # rest) w))
              = trace w @ Px4_info Start_playback # play_actions (tune_control_pub w) evs
                  @ [Px4_info Playback_finished]
          \<and> map tune_id evs = replicate (length evs) 0
          \<and> map tune_of_msg evs
              = map narrow (tunes_of E (nat (MAX_NOTE_ITERATION + 1))
                  (set_string E (tune_string l) (strength (tune_control l)) (Tunes E)))"
proof -
  let ?t = "set_string E (tune_string l) (strength (tune_control l)) (Tunes E)"
  let ?w1 = "px4_info Start_playback w"
  have "0 \<le> (0::int)" "0 \<le> MAX_NOTE_ITERATION" by (simp_all add: MAX_NOTE_ITERATION_def)
  from play_loop_trace [OF this, of E ?t "tune_control l" ?w1]
  obtain evs where
    evs: "trace (play_loop E ?t (tune_control l) 0 ?w1)
            = trace ?w1 @ play_actions (tune_control_pub ?w1) evs"
      "map tune_id evs = replicate (length evs) 0"
      "map tune_of_msg evs = map narrow (tunes_of E (nat (MAX_NOTE_ITERATION + 1 - 0)) ?t)"
    by blast
  show ?thesis
    using evs by (intro exI [of _ evs]) (simp add: main_play_string [OF assms] px4_info_def emit_def)
qed

lemma main_play_id_published:
  fixes E :: "'t platform" and w :: world and l :: locals
  assumes "getopt_loop E (Tunes E) getopts locals_init = Inr l" and "\<not> string_input l"
  defines "i \<equiv> (if tune_id (tune_control l) = 0 then 1 else tune_id (tune_control l))"
  defines "e \<equiv> (tune_control l)\<lparr>tune_id := i,
       timestamp := hrt_absolute_time E (trace w @ [Px4_info (Publishing_standard_tune i)])\<rparr>"
  shows "published (trace (snd (tune_control_main E getopts (''play'' # rest) w)))
           = published (trace w) @ [e]"
    and "sleeps (trace (snd (tune_control_main E getopts (''play'' # rest) w)))
           = sleeps (trace w)"
  using assms(1,2) unfolding i_def e_def
  by (simp_all add: main_play_id_trace published_append sleeps_append)

lemma main_stop_trace:
  fixes E :: "'t platform" and w :: world and l :: locals
  assumes "getopt_loop E (Tunes E) getopts locals_init = Inr l"
  defines "e \<equiv> (tune_control l)\<lparr>tune_id := 0, frequency := 0, duration := 0, silence := 0,
       tune_override := True,
       timestamp := hrt_absolute_time E (trace w @ [Px4_info Stopping_playback])\<rparr>"
  shows "trace (snd (tune_control_main E getopts (''stop'' # rest) w)) =
           trace w @ [Px4_info Stopping_playback,
                      if tune_control_pub w then Orb_publish e else Orb_advertise_queue e 3,
                      Usleep (get_maximum_update_interval E (Tunes E))]"
  using assms(1) unfolding e_def
  by (simp add: main_stop publish_trace px4_info_def usleep_def emit_def)

lemma getopt_loop_snoc:
  "getopt_loop E t pre l = Inr l0 \<Longrightarrow>
   getopt_loop E t (pre @ opt # post) l =
     (case getopt_case E t opt l0 of Inl r \<Rightarrow> Inl r | Inr l1 \<Rightarrow> getopt_loop E t post l1)"
  by (simp add: getopt_loop_append)

text \<open>The number of messages one playback adds never exceeds \<^verbatim>\<open>MAX_NOTE_ITERATION\<close>
  plus one.\<close>

lemma play_string_published_bound:
  assumes "getopt_loop E (Tunes E) getopts locals_init = Inr l" and "string_input l"
  shows "length (published (trace (snd (tune_control_main E getopts (''play'' # rest) w))))
           \<le> length (published (trace w)) + nat (MAX_NOTE_ITERATION + 1)"
proof -
  from main_play_string_trace [OF assms, of rest w]
  obtain evs where
    tr: "trace (snd (tune_control_main E getopts (''play'' # rest) w))
              = trace w @ Px4_info Start_playback # play_actions (tune_control_pub w) evs
                  @ [Px4_info Playback_finished]"
    and tn: "map tune_of_msg evs
              = map narrow (tunes_of E (nat (MAX_NOTE_ITERATION + 1))
                  (set_string E (tune_string l) (strength (tune_control l)) (Tunes E)))"
    by blast
  from tn have "length evs = length (tunes_of E (nat (MAX_NOTE_ITERATION + 1))
                  (set_string E (tune_string l) (strength (tune_control l)) (Tunes E)))"
    by (metis length_map)
  then have "length evs \<le> nat (MAX_NOTE_ITERATION + 1)"
    by (simp add: tunes_of_length)
  then show ?thesis
    unfolding tr by (simp add: published_append published_play_actions)
qed

section \<open>The claims\<close>

subsection \<open>Playback of a melody string\<close>

text \<open>
  C1. A melody whose compiled sequence has 51 tunes is played in full: the command
  publishes 51 messages, one more than \<^verbatim>\<open>MAX_NOTE_ITERATION\<close>, and returns 0. The
  counter is compared with \<^verbatim>\<open>>\<close> after it has been incremented, so the loop leaves
  only once the 51st message is out.
\<close>

theorem play_51_tunes_publishes_51:
  "fst (tune_control_main (bench (replicate 51 (440, 100000, 20000, 40)))
          [(CHR ''m'', ''MFT200c'')] [''play''] w0) = 0
   \<and> length (published (trace (snd (tune_control_main
          (bench (replicate 51 (440, 100000, 20000, 40)))
          [(CHR ''m'', ''MFT200c'')] [''play''] w0)))) = 51"
proof -
  let ?E = "bench (replicate 51 (440, 100000, 20000, 40))"
  let ?l = "locals_init\<lparr>string_input := True, tune_string := Some ''MFT200c''\<rparr>"
  have p: "getopt_loop ?E (Tunes ?E) [(CHR ''m'', ''MFT200c'')] locals_init = Inr ?l"
    by (simp add: getopt_case_m)
  have s: "string_input ?l" by simp
  from main_play_string_trace [OF p s, of "[]" w0]
  obtain evs where
    r: "tune_control_main ?E [(CHR ''m'', ''MFT200c'')] [''play''] w0
          = (0, snd (tune_control_main ?E [(CHR ''m'', ''MFT200c'')] [''play''] w0))"
    and tr: "trace (snd (tune_control_main ?E [(CHR ''m'', ''MFT200c'')] [''play''] w0))
              = trace w0 @ Px4_info Start_playback # play_actions (tune_control_pub w0) evs
                  @ [Px4_info Playback_finished]"
    and tn: "map tune_of_msg evs
              = map narrow (tunes_of ?E (nat (MAX_NOTE_ITERATION + 1))
                  (set_string ?E (tune_string ?l) (strength (tune_control ?l)) (Tunes ?E)))"
    by blast
  have "length (map tune_of_msg evs) = 51"
    unfolding tn tunes_of_bench by (simp add: MAX_NOTE_ITERATION_def bench_def)
  then have "length evs = 51" by simp
  moreover have "published (trace (snd (tune_control_main ?E [(CHR ''m'', ''MFT200c'')] [''play''] w0))) = evs"
    unfolding tr by (simp add: published_append published_play_actions w0_def)
  moreover have "fst (tune_control_main ?E [(CHR ''m'', ''MFT200c'')] [''play''] w0) = 0"
    by (subst r) simp
  ultimately show ?thesis by simp
qed

text \<open>
  C7. On the string-input path of \<^verbatim>\<open>play\<close> the command logs the start, then for each
  tune in turn hands one message to uORB and calls \<^verbatim>\<open>usleep\<close> once, with that
  message's duration plus silence (the 32-bit unsigned sum the source computes), and
  finally logs the end. The messages carry, in order, the tunes \<^verbatim>\<open>get_next_tune\<close>
  returned, the frequency cast to 16 bits. Nothing else happens in between: the trace
  is exactly the alternation \<open>play_actions\<close> describes.
\<close>

theorem play_string_is_paced:
  assumes "getopt_loop E (Tunes E) getopts locals_init = Inr l" and "string_input l"
  shows "\<exists>evs. fst (tune_control_main E getopts (''play'' # rest) w) = 0
          \<and> trace (snd (tune_control_main E getopts (''play'' # rest) w))
              = trace w @ Px4_info Start_playback # play_actions (tune_control_pub w) evs
                  @ [Px4_info Playback_finished]
          \<and> map tune_of_msg evs
              = map narrow (tunes_of E (nat (MAX_NOTE_ITERATION + 1))
                  (set_string E (tune_string l) (strength (tune_control l)) (Tunes E)))
          \<and> published (trace (snd (tune_control_main E getopts (''play'' # rest) w)))
              = published (trace w) @ evs
          \<and> sleeps (trace (snd (tune_control_main E getopts (''play'' # rest) w)))
              = sleeps (trace w) @ map (\<lambda>e. duration e + silence e) evs"
proof -
  from main_play_string_trace [OF assms, of rest w]
  obtain evs where
    r: "tune_control_main E getopts (''play'' # rest) w
          = (0, snd (tune_control_main E getopts (''play'' # rest) w))"
    and tr: "trace (snd (tune_control_main E getopts (''play'' # rest) w))
              = trace w @ Px4_info Start_playback # play_actions (tune_control_pub w) evs
                  @ [Px4_info Playback_finished]"
    and tn: "map tune_of_msg evs
              = map narrow (tunes_of E (nat (MAX_NOTE_ITERATION + 1))
                  (set_string E (tune_string l) (strength (tune_control l)) (Tunes E)))"
    by blast
  have f: "fst (tune_control_main E getopts (''play'' # rest) w) = 0"
    by (subst r) simp
  have p: "published (trace (snd (tune_control_main E getopts (''play'' # rest) w)))
              = published (trace w) @ evs"
    unfolding tr by (simp add: published_append published_play_actions)
  have s: "sleeps (trace (snd (tune_control_main E getopts (''play'' # rest) w)))
              = sleeps (trace w) @ map (\<lambda>e. duration e + silence e) evs"
    unfolding tr by (simp add: sleeps_append sleeps_play_actions)
  show ?thesis
    using f tr tn p s by (intro exI [of _ evs]) simp
qed

text \<open>
  The melody of two tunes on the bench platform: both are published, in order, and the
  command sleeps 120000 and then 50000 microseconds.
\<close>

theorem play_string_is_paced_witness:
  "getopt_loop (bench [(440, 100000, 20000, 40), (0, 50000, 0, 40)])
       (Tunes (bench [(440, 100000, 20000, 40), (0, 50000, 0, 40)]))
       [(CHR ''m'', ''MFT200c'')] locals_init
     = Inr (locals_init\<lparr>string_input := True, tune_string := Some ''MFT200c''\<rparr>)
   \<and> string_input (locals_init\<lparr>string_input := True, tune_string := Some ''MFT200c''\<rparr>)
   \<and> map tune_of_msg (published (trace (snd (tune_control_main
         (bench [(440, 100000, 20000, 40), (0, 50000, 0, 40)])
         [(CHR ''m'', ''MFT200c'')] [''play''] w0))))
       = [(440, 100000, 20000, 40), (0, 50000, 0, 40)]
   \<and> sleeps (trace (snd (tune_control_main
         (bench [(440, 100000, 20000, 40), (0, 50000, 0, 40)])
         [(CHR ''m'', ''MFT200c'')] [''play''] w0)))
       = [120000, 50000]"
proof -
  let ?E = "bench [(440, 100000, 20000, 40), (0, 50000, 0, 40)]"
  let ?l = "locals_init\<lparr>string_input := True, tune_string := Some ''MFT200c''\<rparr>"
  have p: "getopt_loop ?E (Tunes ?E) [(CHR ''m'', ''MFT200c'')] locals_init = Inr ?l"
    by (simp add: getopt_case_m)
  have s: "string_input ?l" by simp
  from play_string_is_paced [OF p s, of "[]" w0]
  obtain evs where
    tn: "map tune_of_msg evs
              = map narrow (tunes_of ?E (nat (MAX_NOTE_ITERATION + 1))
                  (set_string ?E (tune_string ?l) (strength (tune_control ?l)) (Tunes ?E)))"
    and pb: "published (trace (snd (tune_control_main ?E [(CHR ''m'', ''MFT200c'')] [''play''] w0)))
              = published (trace w0) @ evs"
    and sl: "sleeps (trace (snd (tune_control_main ?E [(CHR ''m'', ''MFT200c'')] [''play''] w0)))
              = sleeps (trace w0) @ map (\<lambda>e. duration e + silence e) evs"
    by blast
  have t: "map tune_of_msg evs = [(440, 100000, 20000, 40), (0, 50000, 0, 40)]"
    unfolding tn tunes_of_bench
    by (simp add: MAX_NOTE_ITERATION_def bench_def narrow_def)
  then obtain e1 e2 where evs: "evs = [e1, e2]"
    by (cases evs; cases "tl evs"; cases "tl (tl evs)") auto
  from t have "map (\<lambda>e. duration e + silence e) evs = [120000, 50000]"
    unfolding evs by (simp add: tune_of_msg_def)
  with p s t show ?thesis
    unfolding pb sl by (simp add: w0_def)
qed

subsection \<open>Stopping\<close>

text \<open>
  C2, as the code has it. Given options that parse, \<^verbatim>\<open>stop\<close> logs, hands exactly one
  message to uORB and calls \<^verbatim>\<open>usleep\<close> once, with
  \<^verbatim>\<open>get_maximum_update_interval()\<close>, then returns 0. In the message \<^verbatim>\<open>tune_id\<close>,
  \<^verbatim>\<open>frequency\<close>, \<^verbatim>\<open>duration\<close> and \<^verbatim>\<open>silence\<close> are zero and the override flag
  is set. The strength is not touched by \<^verbatim>\<open>stop\<close>: it is what the option loop left,
  \<^verbatim>\<open>STRENGTH_NORMAL\<close> when there was no \<^verbatim>\<open>-s\<close>.
\<close>

theorem stop_publishes_one_override:
  fixes E :: "'t platform" and w :: world and l :: locals
  assumes "getopt_loop E (Tunes E) getopts locals_init = Inr l"
  shows "let r = tune_control_main E getopts (''stop'' # rest) w;
             e = (tune_control l)\<lparr>tune_id := 0, frequency := 0, duration := 0, silence := 0,
                    tune_override := True,
                    timestamp := hrt_absolute_time E (trace w @ [Px4_info Stopping_playback])\<rparr>
         in fst r = 0
          \<and> trace (snd r) =
              trace w @ [Px4_info Stopping_playback,
                         if tune_control_pub w then Orb_publish e else Orb_advertise_queue e 3,
                         Usleep (get_maximum_update_interval E (Tunes E))]
          \<and> published (trace (snd r)) = published (trace w) @ [e]
          \<and> sleeps (trace (snd r)) = sleeps (trace w) @ [get_maximum_update_interval E (Tunes E)]
          \<and> tune_id e = 0 \<and> frequency e = 0 \<and> duration e = 0 \<and> silence e = 0
          \<and> tune_override e
          \<and> strength e = strength (tune_control l)
          \<and> (CHR ''s'' \<notin> fst ` set getopts \<longrightarrow> strength e = STRENGTH_NORMAL)"
proof -
  let ?r = "tune_control_main E getopts (''stop'' # rest) w"
  have st: "CHR ''s'' \<notin> fst ` set getopts \<Longrightarrow> strength (tune_control l) = STRENGTH_NORMAL"
    using getopt_loop_keeps [OF assms] by (simp add: locals_init_def tune_control_init_def)
  have f: "fst ?r = 0"
    by (simp add: main_stop [OF assms])
  note tr = main_stop_trace [OF assms, of rest w]
  have p: "published (trace (snd ?r)) = published (trace w) @
      [(tune_control l)\<lparr>tune_id := 0, frequency := 0, duration := 0, silence := 0,
                    tune_override := True,
                    timestamp := hrt_absolute_time E (trace w @ [Px4_info Stopping_playback])\<rparr>]"
    unfolding tr by (simp add: published_append)
  have s: "sleeps (trace (snd ?r)) = sleeps (trace w) @ [get_maximum_update_interval E (Tunes E)]"
    unfolding tr by (simp add: sleeps_append)
  show ?thesis
    unfolding Let_def using st f tr p s by simp
qed

text \<open>With no option at all the one message has strength 40.\<close>

theorem stop_publishes_one_override_witness:
  "getopt_loop (bench []) (Tunes (bench [])) [] locals_init = Inr locals_init
   \<and> fst (tune_control_main (bench []) [] [''stop''] w0) = 0
   \<and> published (trace (snd (tune_control_main (bench []) [] [''stop''] w0)))
       = [\<lparr>timestamp = 1, tune_id = 0, tune_override = True, frequency = 0,
           duration = 0, silence = 0, strength = 40\<rparr>]
   \<and> sleeps (trace (snd (tune_control_main (bench []) [] [''stop''] w0))) = [100000]"
proof -
  have p: "getopt_loop (bench []) (Tunes (bench [])) [] locals_init = Inr locals_init"
    by simp
  from stop_publishes_one_override [OF p, of "[]" w0] show ?thesis
    using p
    by (simp add: Let_def bench_def w0_def locals_init_def tune_control_init_def
          STRENGTH_NORMAL_def)
qed

text \<open>
  C2 as stated fails: after \<^verbatim>\<open>-s 50\<close> the message \<^verbatim>\<open>stop\<close> publishes has strength
  50, not 0.
\<close>

theorem stop_strength_not_zeroed:
  "map strength (published (trace (snd (tune_control_main (bench [])
       [(CHR ''s'', ''50'')] [''stop''] w0)))) = [50]"
proof -
  have p: "getopt_loop (bench []) (Tunes (bench [])) [(CHR ''s'', ''50'')] locals_init
             = Inr (locals_init\<lparr>tune_control := tune_control_init\<lparr>strength := 50\<rparr>\<rparr>)"
    by (simp add: getopt_case_s bench_def locals_init_def)
  show ?thesis
    by (simp add: main_stop_trace [OF p] w0_def)
qed

subsection \<open>Options\<close>



text \<open>
  What the command does around \<^verbatim>\<open>-f\<close>. Let the options before \<^verbatim>\<open>-f\<close> parse, with no \<^verbatim>\<open>-m\<close>
  among them, and let \<open>f\<close> be the value of the argument of \<^verbatim>\<open>-f\<close>. When
  \<open>0 < f mod 65536 < 22000\<close>, \<^verbatim>\<open>play\<close> with \<^verbatim>\<open>-f\<close> as the last option returns 0
  and publishes exactly one more message, whose frequency is \<open>f mod 65536\<close>. Otherwise
  the command, whatever follows \<^verbatim>\<open>-f\<close> on the command line, prints the usage text and
  returns 1, and nothing is published. So \<open>f = 0\<close> and \<open>22000 \<le> f < 65536\<close>
  are rejected, as the check intends; values from 65536 on are judged by their low 16
  bits.
\<close>

lemma tone_frequency_accepted_iff:
  fixes E :: "'t platform" and w :: world
  assumes "getopt_loop E (Tunes E) pre locals_init = Inr l0"
    and "CHR ''m'' \<notin> fst ` set pre"
  shows "let f = strtol E a;
             r = tune_control_main E (pre @ [(CHR ''f'', a)]) (''play'' # rest) w
         in if 0 < f mod 65536 \<and> f mod 65536 < 22000
            then fst r = 0
               \<and> map frequency (published (trace (snd r)))
                   = map frequency (published (trace w)) @ [word_of_int f]
               \<and> uint (word_of_int f :: 16 word) = f mod 65536
            else tune_control_main E (pre @ (CHR ''f'', a) # post) args w = (1, usage w)
               \<and> published (trace (usage w)) = published (trace w)"
proof (cases "0 < strtol E a mod 65536 \<and> strtol E a mod 65536 < 22000")
  case True
  let ?l = "l0\<lparr>tune_control := (tune_control l0)\<lparr>frequency := word_of_int (strtol E a)\<rparr>\<rparr>"
  have p: "getopt_loop E (Tunes E) (pre @ [(CHR ''f'', a)]) locals_init = Inr ?l"
    using True by (simp add: getopt_loop_snoc [OF assms(1)] getopt_case_f)
  have "string_input l0 = string_input locals_init"
    using getopt_loop_keeps [OF assms(1)] assms(2) by simp
  then have s: "\<not> string_input ?l"
    by (simp add: locals_init_def)
  show ?thesis
    using True
    by (simp add: Let_def main_play_id_trace(1) [OF p s] main_play_id_published(1) [OF p s]
          uint_val16)
next
  case False
  have "getopt_case E (Tunes E) (CHR ''f'', a) l0 = Inl 1"
    by (simp only: getopt_case_f False if_False)
  then have "getopt_loop E (Tunes E) (pre @ (CHR ''f'', a) # post) locals_init = Inl 1"
    by (simp add: getopt_loop_snoc [OF assms(1)])
  then have "tune_control_main E (pre @ (CHR ''f'', a) # post) args w = (1, usage w)"
    by (rule main_rejected)
  moreover have "published (trace (usage w)) = published (trace w)"
    by (simp add: usage_def emit_def published_append)
  ultimately show ?thesis
    by (simp only: Let_def False if_False simp_thms)
qed

text \<open>
  After \<^verbatim>\<open>-d 1000\<close>, the tone 440 is published, and 22000 and 0 are rejected with the
  usage text.
\<close>

lemma tone_frequency_accepted_iff_witness:
  "getopt_loop (bench []) (Tunes (bench [])) [(CHR ''d'', ''1000'')] locals_init
     = Inr (locals_init\<lparr>tune_control := tune_control_init\<lparr>duration := 1000\<rparr>\<rparr>)
   \<and> CHR ''m'' \<notin> fst ` set [(CHR ''d'', ''1000'')]
   \<and> fst (tune_control_main (bench []) ([(CHR ''d'', ''1000'')] @ [(CHR ''f'', ''440'')])
           [''play''] w0) = 0
   \<and> map frequency (published (trace (snd (tune_control_main (bench [])
           ([(CHR ''d'', ''1000'')] @ [(CHR ''f'', ''440'')]) [''play''] w0)))) = [440]
   \<and> tune_control_main (bench []) ([(CHR ''d'', ''1000'')] @ [(CHR ''f'', ''22000''), (CHR ''s'', ''7'')])
           [''play''] w0 = (1, usage w0)
   \<and> tune_control_main (bench []) ([(CHR ''d'', ''1000'')] @ [(CHR ''f'', ''0'')])
           [''play''] w0 = (1, usage w0)"
proof -
  let ?l = "locals_init\<lparr>tune_control := tune_control_init\<lparr>duration := 1000\<rparr>\<rparr>"
  have p: "getopt_loop (bench []) (Tunes (bench [])) [(CHR ''d'', ''1000'')] locals_init = Inr ?l"
    by (simp add: getopt_case_d bench_def locals_init_def)
  have m: "CHR ''m'' \<notin> fst ` set [(CHR ''d'', ''1000'')]"
    by simp
  have s: "strtol (bench []) ''440'' = 440" "strtol (bench []) ''22000'' = 22000"
     "strtol (bench []) ''0'' = 0"
    by (simp_all add: bench_def)
  have a: "fst (tune_control_main (bench []) ([(CHR ''d'', ''1000'')] @ [(CHR ''f'', ''440'')])
           [''play''] w0) = 0
   \<and> map frequency (published (trace (snd (tune_control_main (bench [])
           ([(CHR ''d'', ''1000'')] @ [(CHR ''f'', ''440'')]) [''play''] w0)))) = [440]"
    using tone_frequency_accepted_iff [OF p m, where a = "''440''" and rest = "[]" and w = w0]
    by (simp add: Let_def s w0_def)
  have b: "tune_control_main (bench []) ([(CHR ''d'', ''1000'')] @ [(CHR ''f'', ''22000''), (CHR ''s'', ''7'')])
           [''play''] w0 = (1, usage w0)"
    using tone_frequency_accepted_iff [OF p m, where a = "''22000''" and post = "[(CHR ''s'', ''7'')]"
        and args = "[''play'']" and w = w0]
    by (simp add: Let_def s)
  have c: "tune_control_main (bench []) ([(CHR ''d'', ''1000'')] @ [(CHR ''f'', ''0'')])
           [''play''] w0 = (1, usage w0)"
    using tone_frequency_accepted_iff [OF p m, where a = "''0''" and post = "[]" and args = "[''play'']" and w = w0]
    by (simp add: Let_def s)
  from p m a b c show ?thesis by blast
qed

text \<open>
  C3. Every frequency argument from 22000 on has to fail with the usage text before
  anything is published, and the range check with its \<^verbatim>\<open>usage(); return 1\<close> branch is
  there to do that. The check, however, is made on the argument cast to \<^verbatim>\<open>uint16_t\<close>:
  65537 is not below 22000, yet \<^verbatim>\<open>play -f 65537\<close> returns 0 and publishes a message,
  with frequency 1.
\<close>

theorem tone_frequency_65537_accepted:
  "strtol (bench []) ''65537'' = 65537
   \<and> tune_control_main (bench []) [(CHR ''f'', ''65537'')] [''play''] w0 =
       (0, \<lparr>tune_control_pub = True,
            trace = [Px4_info (Publishing_standard_tune 1),
                     Orb_advertise_queue
                       \<lparr>timestamp = 1, tune_id = 1, tune_override = False, frequency = 1,
                        duration = 0, silence = 0, strength = 40\<rparr> 3]\<rparr>)"
proof -
  have s: "strtol (bench []) ''65537'' = 65537"
    by (simp add: bench_def)
  have p: "getopt_loop (bench []) (Tunes (bench [])) [(CHR ''f'', ''65537'')] locals_init
             = Inr (locals_init\<lparr>tune_control := tune_control_init\<lparr>frequency := 1\<rparr>\<rparr>)"
    by (simp add: getopt_case_f s locals_init_def)
  have n: "\<not> string_input (locals_init\<lparr>tune_control := tune_control_init\<lparr>frequency := 1\<rparr>\<rparr>)"
    by (simp add: locals_init_def)
  have "tune_control_main (bench []) [(CHR ''f'', ''65537'')] [''play''] w0 =
       (0, \<lparr>tune_control_pub = True,
            trace = [Px4_info (Publishing_standard_tune 1),
                     Orb_advertise_queue
                       \<lparr>timestamp = 1, tune_id = 1, tune_override = False, frequency = 1,
                        duration = 0, silence = 0, strength = 40\<rparr> 3]\<rparr>)"
    unfolding main_play_id [OF p n]
    by (simp add: publish_tune_control_def px4_info_def emit_def
          w0_def bench_def locals_init_def tune_control_init_def STRENGTH_NORMAL_def Let_def)
  with s show ?thesis by simp
qed

text \<open>
  What the command does around \<^verbatim>\<open>-t\<close>. Let the options before \<^verbatim>\<open>-t\<close> parse and let \<open>t\<close> be the value
  of the argument of \<^verbatim>\<open>-t\<close>, which the code casts to \<^verbatim>\<open>uint8_t\<close>. When
  \<open>0 < t mod 256 < get_default_tunes_size()\<close> the option is accepted and the message's
  \<^verbatim>\<open>tune_id\<close> becomes \<open>t mod 256\<close>. Otherwise the command, whatever follows on the
  command line, prints the usage text and returns 1, and nothing is published. So
  \<open>t = 0\<close> and every \<open>t\<close> from the table size up to 255 are rejected, as the check
  intends; values from 256 on are judged by their low 8 bits.
\<close>

lemma tune_index_accepted_iff:
  fixes E :: "'t platform" and w :: world
  assumes "getopt_loop E (Tunes E) pre locals_init = Inr l0"
  shows "let t = strtol E a
         in if 0 < t mod 256 \<and> t mod 256 < uint (get_default_tunes_size E (Tunes E))
            then getopt_loop E (Tunes E) (pre @ [(CHR ''t'', a)]) locals_init
                   = Inr (l0\<lparr>tune_control := (tune_control l0)\<lparr>tune_id := word_of_int t\<rparr>\<rparr>)
               \<and> uint (word_of_int t :: 8 word) = t mod 256
            else tune_control_main E (pre @ (CHR ''t'', a) # post) args w = (1, usage w)
               \<and> published (trace (usage w)) = published (trace w)"
proof (cases "0 < strtol E a mod 256
              \<and> strtol E a mod 256 < uint (get_default_tunes_size E (Tunes E))")
  case True
  then show ?thesis
    by (simp add: Let_def getopt_loop_snoc [OF assms] getopt_case_t uint_val8)
next
  case False
  have "getopt_case E (Tunes E) (CHR ''t'', a) l0 = Inl 1"
    by (simp only: getopt_case_t False if_False)
  then have "getopt_loop E (Tunes E) (pre @ (CHR ''t'', a) # post) locals_init = Inl 1"
    by (simp add: getopt_loop_snoc [OF assms])
  then have "tune_control_main E (pre @ (CHR ''t'', a) # post) args w = (1, usage w)"
    by (rule main_rejected)
  moreover have "published (trace (usage w)) = published (trace w)"
    by (simp add: usage_def emit_def published_append)
  ultimately show ?thesis
    by (simp only: Let_def False if_False simp_thms)
qed

text \<open>With a table of size 22: index 21 is accepted, 0 and 22 are rejected.\<close>

lemma tune_index_accepted_iff_witness:
  "getopt_loop (bench []) (Tunes (bench [])) [] locals_init = Inr locals_init
   \<and> getopt_loop (bench []) (Tunes (bench [])) ([] @ [(CHR ''t'', ''21'')]) locals_init
       = Inr (locals_init\<lparr>tune_control := (tune_control locals_init)\<lparr>tune_id := 21\<rparr>\<rparr>)
   \<and> tune_control_main (bench []) ([] @ (CHR ''t'', ''0'') # []) [''play''] w0 = (1, usage w0)
   \<and> tune_control_main (bench []) ([] @ (CHR ''t'', ''22'') # []) [''play''] w0 = (1, usage w0)"
proof -
  have p: "getopt_loop (bench []) (Tunes (bench [])) [] locals_init = Inr locals_init"
    by simp
  have s: "strtol (bench []) ''21'' = 21" "strtol (bench []) ''0'' = 0"
      "strtol (bench []) ''22'' = 22"
      "get_default_tunes_size (bench []) (Tunes (bench [])) = 22"
    by (simp_all add: bench_def)
  have a: "getopt_loop (bench []) (Tunes (bench [])) ([] @ [(CHR ''t'', ''21'')]) locals_init
       = Inr (locals_init\<lparr>tune_control := (tune_control locals_init)\<lparr>tune_id := 21\<rparr>\<rparr>)"
    using tune_index_accepted_iff [OF p, where a = "''21''"]
    by (simp add: Let_def s)
  have b: "tune_control_main (bench []) ([] @ (CHR ''t'', ''0'') # []) [''play''] w0 = (1, usage w0)"
    using tune_index_accepted_iff [OF p, where a = "''0''" and post = "[]"
        and args = "[''play'']" and w = w0]
    by (simp add: Let_def s)
  have c: "tune_control_main (bench []) ([] @ (CHR ''t'', ''22'') # []) [''play''] w0 = (1, usage w0)"
    using tune_index_accepted_iff [OF p, where a = "''22''" and post = "[]"
        and args = "[''play'']" and w = w0]
    by (simp add: Let_def s)
  from p a b c show ?thesis by blast
qed

text \<open>
  C5. Every tune index from the table size on has to make the command return an error
  before anything is published, and the range check with its \<^verbatim>\<open>usage(); return 1\<close>
  branch is there to do that. The check, however, is made on the argument cast to
  \<^verbatim>\<open>uint8_t\<close>: with a table of size 22 the index 257 is not below the table size,
  yet \<^verbatim>\<open>play -t 257\<close> returns 0 and publishes tune 1.
\<close>

theorem tune_index_257_accepted:
  "strtol (bench []) ''257'' = 257
   \<and> get_default_tunes_size (bench []) (Tunes (bench [])) = 22
   \<and> tune_control_main (bench []) [(CHR ''t'', ''257'')] [''play''] w0 =
       (0, \<lparr>tune_control_pub = True,
            trace = [Px4_info (Publishing_standard_tune 1),
                     Orb_advertise_queue
                       \<lparr>timestamp = 1, tune_id = 1, tune_override = False, frequency = 0,
                        duration = 0, silence = 0, strength = 40\<rparr> 3]\<rparr>)"
proof -
  have s: "strtol (bench []) ''257'' = 257"
      "get_default_tunes_size (bench []) (Tunes (bench [])) = 22"
    by (simp_all add: bench_def)
  have p: "getopt_loop (bench []) (Tunes (bench [])) [(CHR ''t'', ''257'')] locals_init
             = Inr (locals_init\<lparr>tune_control := tune_control_init\<lparr>tune_id := 1\<rparr>\<rparr>)"
    by (simp add: getopt_case_t s locals_init_def)
  have n: "\<not> string_input (locals_init\<lparr>tune_control := tune_control_init\<lparr>tune_id := 1\<rparr>\<rparr>)"
    by (simp add: locals_init_def)
  have "tune_control_main (bench []) [(CHR ''t'', ''257'')] [''play''] w0 =
       (0, \<lparr>tune_control_pub = True,
            trace = [Px4_info (Publishing_standard_tune 1),
                     Orb_advertise_queue
                       \<lparr>timestamp = 1, tune_id = 1, tune_override = False, frequency = 0,
                        duration = 0, silence = 0, strength = 40\<rparr> 3]\<rparr>)"
    unfolding main_play_id [OF p n]
    by (simp add: publish_tune_control_def px4_info_def emit_def
          w0_def bench_def locals_init_def tune_control_init_def STRENGTH_NORMAL_def Let_def)
  with s show ?thesis by simp
qed

text \<open>
  What the command does around \<^verbatim>\<open>-s\<close> when it is the last option. Let the options
  before \<^verbatim>\<open>-s\<close> parse, with no \<^verbatim>\<open>-m\<close> among them, and let \<open>s\<close> be the value of the argument of \<^verbatim>\<open>-s\<close>, which the code
  casts to \<^verbatim>\<open>uint8_t\<close>. The option never fails. The strength of the message becomes
  \<open>s mod 256\<close> when \<open>0 < s mod 256 < 100\<close> and \<^verbatim>\<open>STRENGTH_NORMAL\<close>, which is 40,
  otherwise; that is the strength of the one message \<^verbatim>\<open>play\<close> then publishes. So 0
  and 100 both give 40, as the check intends; values from 256 on are judged by their
  low 8 bits.
\<close>

lemma strength_set_or_defaulted:
  fixes E :: "'t platform" and w :: world
  assumes "getopt_loop E (Tunes E) pre locals_init = Inr l0"
    and "CHR ''m'' \<notin> fst ` set pre"
  shows "let s = strtol E a;
             v = (if 0 < s mod 256 \<and> s mod 256 < 100 then word_of_int s else STRENGTH_NORMAL);
             r = tune_control_main E (pre @ [(CHR ''s'', a)]) (''play'' # rest) w
         in getopt_loop E (Tunes E) (pre @ [(CHR ''s'', a)]) locals_init
              = Inr (l0\<lparr>tune_control := (tune_control l0)\<lparr>strength := v\<rparr>\<rparr>)
          \<and> fst r = 0
          \<and> map strength (published (trace (snd r)))
              = map strength (published (trace w)) @ [v]
          \<and> (0 < s mod 256 \<and> s mod 256 < 100 \<longrightarrow> uint v = s mod 256)
          \<and> (s = 0 \<or> s = 100 \<longrightarrow> v = 40)
          \<and> STRENGTH_NORMAL = 40"
proof -
  let ?v = "if 0 < strtol E a mod 256 \<and> strtol E a mod 256 < 100
            then word_of_int (strtol E a) else STRENGTH_NORMAL"
  let ?l = "l0\<lparr>tune_control := (tune_control l0)\<lparr>strength := ?v\<rparr>\<rparr>"
  have p: "getopt_loop E (Tunes E) (pre @ [(CHR ''s'', a)]) locals_init = Inr ?l"
    by (simp add: getopt_loop_snoc [OF assms(1)] getopt_case_s)
  have "string_input l0 = string_input locals_init"
    using getopt_loop_keeps [OF assms(1)] assms(2) by simp
  then have n: "\<not> string_input ?l"
    by (simp add: locals_init_def)
  have f: "fst (tune_control_main E (pre @ [(CHR ''s'', a)]) (''play'' # rest) w) = 0"
    by (rule main_play_id_trace(1) [OF p n])
  have e: "map strength (published (trace (snd
             (tune_control_main E (pre @ [(CHR ''s'', a)]) (''play'' # rest) w))))
           = map strength (published (trace w)) @ [?v]"
    unfolding main_play_id_published(1) [OF p n] by simp
  have u: "0 < strtol E a mod 256 \<and> strtol E a mod 256 < 100 \<longrightarrow> uint ?v = strtol E a mod 256"
    by (simp add: uint_val8)
  have z: "strtol E a = 0 \<or> strtol E a = 100 \<longrightarrow> ?v = 40"
    by (auto simp: STRENGTH_NORMAL_def)
  show ?thesis
    unfolding Let_def using p f e u z by (simp only: simp_thms STRENGTH_NORMAL_def)
qed

text \<open>Strength 99 is kept; 100 and 0 give 40.\<close>

lemma strength_set_or_defaulted_witness:
  "getopt_loop (bench []) (Tunes (bench [])) [] locals_init = Inr locals_init
   \<and> CHR ''m'' \<notin> fst ` set ([] :: (char \<times> string) list)
   \<and> map strength (published (trace (snd (tune_control_main (bench [])
         ([] @ [(CHR ''s'', ''99'')]) [''play''] w0)))) = [99]
   \<and> map strength (published (trace (snd (tune_control_main (bench [])
         ([] @ [(CHR ''s'', ''100'')]) [''play''] w0)))) = [40]
   \<and> map strength (published (trace (snd (tune_control_main (bench [])
         ([] @ [(CHR ''s'', ''0'')]) [''play''] w0)))) = [40]"
proof -
  have p: "getopt_loop (bench []) (Tunes (bench [])) [] locals_init = Inr locals_init"
    by simp
  have m: "CHR ''m'' \<notin> fst ` set ([] :: (char \<times> string) list)"
    by simp
  have s: "strtol (bench []) ''99'' = 99" "strtol (bench []) ''100'' = 100"
      "strtol (bench []) ''0'' = 0"
    by (simp_all add: bench_def)
  have a: "map strength (published (trace (snd (tune_control_main (bench [])
         ([] @ [(CHR ''s'', ''99'')]) [''play''] w0)))) = [99]"
    using strength_set_or_defaulted [OF p m, where a = "''99''" and rest = "[]" and w = w0]
    by (simp add: Let_def s w0_def)
  have b: "map strength (published (trace (snd (tune_control_main (bench [])
         ([] @ [(CHR ''s'', ''100'')]) [''play''] w0)))) = [40]"
    using strength_set_or_defaulted [OF p m, where a = "''100''" and rest = "[]" and w = w0]
    by (simp add: Let_def s w0_def)
  have c: "map strength (published (trace (snd (tune_control_main (bench [])
         ([] @ [(CHR ''s'', ''0'')]) [''play''] w0)))) = [40]"
    using strength_set_or_defaulted [OF p m, where a = "''0''" and rest = "[]" and w = w0]
    by (simp add: Let_def s w0_def)
  from p m a b c show ?thesis by blast
qed

text \<open>
  C6. Every strength outside the interval (0, 100) has to give the default 40, and the
  \<^verbatim>\<open>else\<close> branch of the range check is there to do that. The check, however, is made
  on the argument cast to \<^verbatim>\<open>uint8_t\<close>: 257 lies outside the interval, yet after
  \<^verbatim>\<open>play -s 257\<close> the published message has strength 1, not 40. The command returns
  0: a strength out of range is not an error.
\<close>

theorem strength_257_not_defaulted:
  "strtol (bench []) ''257'' = 257
   \<and> tune_control_main (bench []) [(CHR ''s'', ''257'')] [''play''] w0 =
       (0, \<lparr>tune_control_pub = True,
            trace = [Px4_info (Publishing_standard_tune 1),
                     Orb_advertise_queue
                       \<lparr>timestamp = 1, tune_id = 1, tune_override = False, frequency = 0,
                        duration = 0, silence = 0, strength = 1\<rparr> 3]\<rparr>)"
proof -
  have s: "strtol (bench []) ''257'' = 257"
    by (simp add: bench_def)
  have p: "getopt_loop (bench []) (Tunes (bench [])) [(CHR ''s'', ''257'')] locals_init
             = Inr (locals_init\<lparr>tune_control := tune_control_init\<lparr>strength := 1\<rparr>\<rparr>)"
    by (simp add: getopt_case_s s locals_init_def)
  have n: "\<not> string_input (locals_init\<lparr>tune_control := tune_control_init\<lparr>strength := 1\<rparr>\<rparr>)"
    by (simp add: locals_init_def)
  have "tune_control_main (bench []) [(CHR ''s'', ''257'')] [''play''] w0 =
       (0, \<lparr>tune_control_pub = True,
            trace = [Px4_info (Publishing_standard_tune 1),
                     Orb_advertise_queue
                       \<lparr>timestamp = 1, tune_id = 1, tune_override = False, frequency = 0,
                        duration = 0, silence = 0, strength = 1\<rparr> 3]\<rparr>)"
    unfolding main_play_id [OF p n]
    by (simp add: publish_tune_control_def px4_info_def emit_def
          w0_def bench_def locals_init_def tune_control_init_def STRENGTH_NORMAL_def Let_def)
  with s show ?thesis by simp
qed

text \<open>
  C4. When some \<^verbatim>\<open>-m\<close> option carries a string that does not begin with \<open>M\<close> (the
  empty string included), the command fails: it returns a non-zero code (1 when the
  options before that \<^verbatim>\<open>-m\<close> parse; 1 or -1 in general, since an earlier option may
  fail first), its only action is printing the usage text, and nothing is published.
  The playback branch, where \<^verbatim>\<open>set_string\<close> would be called, is not reached: its
  first action, the start log, is not in the trace.
\<close>

theorem melody_without_marker_rejected:
  fixes E :: "'t platform" and w :: world
  assumes "(CHR ''m'', s) \<in> set getopts" and "take 1 s \<noteq> ''M''"
  shows "let r = tune_control_main E getopts args w
         in (fst r = 1 \<or> fst r = - 1)
          \<and> snd r = usage w
          \<and> trace (snd r) = trace w @ [Usage]
          \<and> published (trace (snd r)) = published (trace w)
          \<and> (\<forall>pre post l0. getopts = pre @ (CHR ''m'', s) # post
                \<and> getopt_loop E (Tunes E) pre locals_init = Inr l0 \<longrightarrow> fst r = 1)"
proof -
  have "\<And>l. \<exists>r. getopt_case E (Tunes E) (CHR ''m'', s) l = Inl r"
    using assms(2) by (simp add: getopt_case_m)
  from getopt_loop_rejects [OF this assms(1)]
  obtain c where c: "getopt_loop E (Tunes E) getopts locals_init = Inl c"
    by blast
  then have r: "tune_control_main E getopts args w = (c, usage w)"
    by (rule main_rejected)
  have c1: "c = 1 \<or> c = - 1"
    using c by (rule getopt_loop_Inl)
  have first: "c = 1"
    if "getopts = pre @ (CHR ''m'', s) # post"
      and "getopt_loop E (Tunes E) pre locals_init = Inr l0" for pre post l0
  proof -
    have "getopt_loop E (Tunes E) getopts locals_init = Inl 1"
      unfolding that(1) using assms(2)
      by (simp add: getopt_loop_snoc [OF that(2)] getopt_case_m)
    with c show ?thesis by simp
  qed
  show ?thesis
    unfolding Let_def r using c1 first
    by (auto simp: usage_def emit_def published_append)
qed

text \<open>The empty melody string after \<^verbatim>\<open>-s 50\<close>: exit code 1 and the usage text only.\<close>

theorem melody_without_marker_rejected_witness:
  "(CHR ''m'', '''') \<in> set [(CHR ''s'', ''50''), (CHR ''m'', '''')]
   \<and> take 1 '''' \<noteq> ''M''
   \<and> tune_control_main (bench [(440, 100000, 20000, 40)])
        [(CHR ''s'', ''50''), (CHR ''m'', '''')] [''play''] w0
       = (1, \<lparr>tune_control_pub = False, trace = [Usage]\<rparr>)"
proof -
  have h1: "(CHR ''m'', '''') \<in> set [(CHR ''s'', ''50''), (CHR ''m'', '''')]" by simp
  have h2: "take 1 '''' \<noteq> ''M''" by simp
  have p: "getopt_loop (bench [(440, 100000, 20000, 40)]) (Tunes (bench [(440, 100000, 20000, 40)]))
              [(CHR ''s'', ''50'')] locals_init
           = Inr (locals_init\<lparr>tune_control := (tune_control locals_init)\<lparr>strength := 50\<rparr>\<rparr>)"
    by (simp add: getopt_case_s bench_def)
  let ?r = "tune_control_main (bench [(440, 100000, 20000, 40)])
          [(CHR ''s'', ''50''), (CHR ''m'', '''')] [''play''] w0"
  note all = melody_without_marker_rejected [OF h1 h2,
      where E = "bench [(440, 100000, 20000, 40)]" and args = "[''play'']" and w = w0,
      unfolded Let_def]
  from all have "\<forall>pre post l0. [(CHR ''s'', ''50''), (CHR ''m'', '''')] = pre @ (CHR ''m'', '''') # post
        \<and> getopt_loop (bench [(440, 100000, 20000, 40)])
            (Tunes (bench [(440, 100000, 20000, 40)])) pre locals_init = Inr l0
        \<longrightarrow> fst ?r = 1"
    by blast
  then have "[(CHR ''s'', ''50''), (CHR ''m'', '''')] = [(CHR ''s'', ''50'')] @ (CHR ''m'', '''') # []
        \<and> getopt_loop (bench [(440, 100000, 20000, 40)])
            (Tunes (bench [(440, 100000, 20000, 40)])) [(CHR ''s'', ''50'')] locals_init
           = Inr (locals_init\<lparr>tune_control := (tune_control locals_init)\<lparr>strength := 50\<rparr>\<rparr>)
        \<longrightarrow> fst ?r = 1"
    by blast
  with p have "fst ?r = 1"
    by simp
  moreover from all have "snd ?r = usage w0"
    by blast
  ultimately have "fst ?r = 1" and "snd ?r = usage w0" .
  then have "tune_control_main (bench [(440, 100000, 20000, 40)])
        [(CHR ''s'', ''50''), (CHR ''m'', '''')] [''play''] w0 = (1, usage w0)"
    by (simp add: prod_eq_iff)
  with h1 h2 show ?thesis
    by (simp add: usage_def emit_def w0_def)
qed

subsection \<open>Predefined tunes\<close>

text \<open>
  C8. \<^verbatim>\<open>play\<close> with a \<^verbatim>\<open>-t\<close> option (the last of its kind) and no \<^verbatim>\<open>-m\<close>, when
  the options parse, logs the tune, hands exactly one message to uORB and returns 0
  without any call of \<^verbatim>\<open>usleep\<close>. The message's \<^verbatim>\<open>tune_id\<close> is the index given
  with \<^verbatim>\<open>-t\<close> (cast to \<^verbatim>\<open>uint8_t\<close>), which lies strictly between 0 and the size of
  the table of default tunes; the tune is not expanded into tones.
\<close>

theorem play_tune_id_publishes_one_event:
  fixes E :: "'t platform" and w :: world
  assumes "getopt_loop E (Tunes E) (pre @ (CHR ''t'', a) # post) locals_init = Inr l"
    and "CHR ''m'' \<notin> fst ` set (pre @ post)" and "CHR ''t'' \<notin> fst ` set post"
  shows "let r = tune_control_main E (pre @ (CHR ''t'', a) # post) (''play'' # rest) w;
             i = (word_of_int (strtol E a) :: 8 word);
             e = (tune_control l)\<lparr>timestamp := hrt_absolute_time E
                     (trace w @ [Px4_info (Publishing_standard_tune i)])\<rparr>
         in fst r = 0
          \<and> trace (snd r) =
              trace w @ [Px4_info (Publishing_standard_tune i),
                         if tune_control_pub w then Orb_publish e else Orb_advertise_queue e 3]
          \<and> published (trace (snd r)) = published (trace w) @ [e]
          \<and> sleeps (trace (snd r)) = sleeps (trace w)
          \<and> tune_id e = i
          \<and> uint i = strtol E a mod 256
          \<and> 0 < uint i \<and> uint i < uint (get_default_tunes_size E (Tunes E))"
proof -
  let ?opts = "pre @ (CHR ''t'', a) # post"
  let ?i = "word_of_int (strtol E a) :: 8 word"
  from assms(1) obtain l0 where pre: "getopt_loop E (Tunes E) pre locals_init = Inr l0"
    by (auto simp: getopt_loop_append split: sum.splits)
  from assms(1) obtain l1 where
    t: "getopt_case E (Tunes E) (CHR ''t'', a) l0 = Inr l1"
    and post: "getopt_loop E (Tunes E) post l1 = Inr l"
    by (auto simp: getopt_loop_snoc [OF pre] split: sum.splits)
  from t have ok: "0 < strtol E a mod 256"
      "strtol E a mod 256 < uint (get_default_tunes_size E (Tunes E))"
    and l1: "l1 = l0\<lparr>tune_control := (tune_control l0)\<lparr>tune_id := ?i\<rparr>\<rparr>"
    by (auto simp: getopt_case_t split: if_splits)
  have u: "uint ?i = strtol E a mod 256"
    by (rule uint_val8)
  have i: "tune_id (tune_control l) = ?i"
    using getopt_loop_keeps [OF post] assms(3) by (simp add: l1)
  have "CHR ''m'' \<notin> fst ` set ?opts"
    using assms(2) by auto
  then have s: "\<not> string_input l"
    using getopt_loop_keeps [OF assms(1)] by (simp add: locals_init_def)
  have nz: "?i \<noteq> 0"
    using ok(1) u by auto
  have e: "(tune_control l)\<lparr>tune_id := ?i, timestamp := x\<rparr> = (tune_control l)\<lparr>timestamp := x\<rparr>" for x
    using i by simp
  show ?thesis
    unfolding Let_def
    using main_play_id_trace [OF assms(1) s, of rest w]
      main_play_id_published [OF assms(1) s, of rest w] ok u nz
    by (simp add: i e)
qed

text \<open>\<^verbatim>\<open>play -s 50 -t 2 -d 7\<close> publishes one message with \<^verbatim>\<open>tune_id\<close> 2 and never
  sleeps.\<close>

theorem play_tune_id_publishes_one_event_witness:
  "getopt_loop (bench []) (Tunes (bench []))
       ([(CHR ''s'', ''50'')] @ (CHR ''t'', ''2'') # [(CHR ''d'', ''7'')]) locals_init
     = Inr (locals_init\<lparr>tune_control :=
              tune_control_init\<lparr>strength := 50, tune_id := 2, duration := 7\<rparr>\<rparr>)
   \<and> CHR ''m'' \<notin> fst ` set ([(CHR ''s'', ''50'')] @ [(CHR ''d'', ''7'')])
   \<and> CHR ''t'' \<notin> fst ` set [(CHR ''d'', ''7'')]
   \<and> fst (tune_control_main (bench [])
            ([(CHR ''s'', ''50'')] @ (CHR ''t'', ''2'') # [(CHR ''d'', ''7'')]) [''play''] w0) = 0
   \<and> published (trace (snd (tune_control_main (bench [])
            ([(CHR ''s'', ''50'')] @ (CHR ''t'', ''2'') # [(CHR ''d'', ''7'')]) [''play''] w0)))
       = [\<lparr>timestamp = 1, tune_id = 2, tune_override = False, frequency = 0,
           duration = 7, silence = 0, strength = 50\<rparr>]
   \<and> sleeps (trace (snd (tune_control_main (bench [])
            ([(CHR ''s'', ''50'')] @ (CHR ''t'', ''2'') # [(CHR ''d'', ''7'')]) [''play''] w0)))
       = []"
proof -
  have p: "getopt_loop (bench []) (Tunes (bench []))
       ([(CHR ''s'', ''50'')] @ (CHR ''t'', ''2'') # [(CHR ''d'', ''7'')]) locals_init
     = Inr (locals_init\<lparr>tune_control :=
              tune_control_init\<lparr>strength := 50, tune_id := 2, duration := 7\<rparr>\<rparr>)"
    by (simp add: getopt_case_s getopt_case_t getopt_case_d bench_def locals_init_def)
  have m: "CHR ''m'' \<notin> fst ` set ([(CHR ''s'', ''50'')] @ [(CHR ''d'', ''7'')])"
    and t: "CHR ''t'' \<notin> fst ` set [(CHR ''d'', ''7'')]"
    by simp_all
  from play_tune_id_publishes_one_event [OF p m t, of "[]" w0] show ?thesis
    using p m t
    by (simp add: Let_def bench_def w0_def locals_init_def tune_control_init_def
          STRENGTH_NORMAL_def)
qed

text \<open>
  C9. \<^verbatim>\<open>play\<close> with neither \<^verbatim>\<open>-m\<close> nor \<^verbatim>\<open>-t\<close>, when the options parse, publishes
  exactly one message, and its \<^verbatim>\<open>tune_id\<close> is 1.
\<close>

theorem play_defaults_to_tune_1:
  fixes E :: "'t platform" and w :: world
  assumes "getopt_loop E (Tunes E) getopts locals_init = Inr l"
    and "CHR ''m'' \<notin> fst ` set getopts" and "CHR ''t'' \<notin> fst ` set getopts"
  shows "let r = tune_control_main E getopts (''play'' # rest) w;
             e = (tune_control l)\<lparr>tune_id := 1,
                   timestamp := hrt_absolute_time E
                     (trace w @ [Px4_info (Publishing_standard_tune 1)])\<rparr>
         in fst r = 0
          \<and> trace (snd r) =
              trace w @ [Px4_info (Publishing_standard_tune 1),
                         if tune_control_pub w then Orb_publish e else Orb_advertise_queue e 3]
          \<and> published (trace (snd r)) = published (trace w) @ [e]
          \<and> tune_id e = 1"
proof -
  have s: "\<not> string_input l" and i: "tune_id (tune_control l) = 0"
    using getopt_loop_keeps [OF assms(1)] assms(2,3)
    by (simp_all add: locals_init_def tune_control_init_def)
  show ?thesis
    unfolding Let_def
    using main_play_id_trace [OF assms(1) s, of rest w]
      main_play_id_published(1) [OF assms(1) s, of rest w]
    by (simp add: i)
qed

text \<open>\<^verbatim>\<open>play\<close> without options publishes tune 1.\<close>

theorem play_defaults_to_tune_1_witness:
  "getopt_loop (bench []) (Tunes (bench [])) [] locals_init = Inr locals_init
   \<and> CHR ''m'' \<notin> fst ` set ([] :: (char \<times> string) list)
   \<and> CHR ''t'' \<notin> fst ` set ([] :: (char \<times> string) list)
   \<and> fst (tune_control_main (bench []) [] [''play''] w0) = 0
   \<and> published (trace (snd (tune_control_main (bench []) [] [''play''] w0)))
       = [\<lparr>timestamp = 1, tune_id = 1, tune_override = False, frequency = 0,
           duration = 0, silence = 0, strength = 40\<rparr>]"
proof -
  have p: "getopt_loop (bench []) (Tunes (bench [])) [] locals_init = Inr locals_init"
    by simp
  have m: "CHR ''m'' \<notin> fst ` set ([] :: (char \<times> string) list)"
    and t: "CHR ''t'' \<notin> fst ` set ([] :: (char \<times> string) list)"
    by simp_all
  from play_defaults_to_tune_1 [OF p m t, of "[]" w0] show ?thesis
    using p
    by (simp add: Let_def bench_def w0_def locals_init_def tune_control_init_def
          STRENGTH_NORMAL_def)
qed

end
